theory Spec2Isabelle
  imports Main
begin

section \<open>Configuration (autoswitcher.py, lines 11-23)\<close>

text \<open>
  Addresses, transaction hashes and call payloads are Python \<open>str\<close> values in the
  source; they are modelled as \<open>string\<close>. Python's unbounded \<open>int\<close> is \<open>int\<close>.
\<close>

type_synonym address = string

definition YOUR_SAFE_ADDRESS :: address where
  "YOUR_SAFE_ADDRESS = ''0x3Ef50d6213F36eb88b994FA6C78277B328216d52''"

definition YOUR_TARGET_WALLET :: address where
  "YOUR_TARGET_WALLET = ''0xdD3BA483352ab5E74e4C52681Fd53DB4376e5c13''"

text \<open>The dict \<open>TOKEN_ADDRESSES\<close>, in insertion order (symbol, address).\<close>

definition TOKEN_ADDRESSES :: "(string \<times> address) list" where
  "TOKEN_ADDRESSES =
     [(''USDT'', ''0xc2132D05D31c914a87C6611C10748AEb04B58e8F''),
      (''USDC'', ''0x2791Bca1f2de4661ED88A30C99A7a9449Aa84174'')]"

definition MONITOR_INTERVAL :: nat where
  "MONITOR_INTERVAL = 60"

definition BLOCK_RANGE :: int where
  "BLOCK_RANGE = 100"

definition RETRY_ATTEMPTS :: nat where
  "RETRY_ATTEMPTS = 5"

section \<open>Exceptions, observable effects, the remote node\<close>

text \<open>A raised Python exception, with its message (\<open>str(e)\<close>).\<close>

datatype exn = Exception string

text \<open>
  The transaction receipt, as far as the source reads it: \<open>receipt['status']\<close> and
  \<open>receipt.transactionHash\<close>. An absent receipt (\<open>None\<close>, falsy in
  \<open>if receipt and ...\<close>) is \<open>None :: receipt option\<close>.
\<close>

record receipt =
  status :: int
  transactionHash :: string

text \<open>
  What the process does to the outside, in order: the log lines, the sleeps, the
  block fetches and the invocations of \<open>execute_safe_transaction\<close> with their three
  arguments.
\<close>

datatype event =
    Info_successful_transfer string address
  | Error_all_attempts_failed address
  | Warning_attempt_failed nat string
  | Sleep nat
  | Info_scanning int
  | Get_block int
  | Info_matic_deposit int address
  | Info_erc20_deposit int string address
  | Call_execute address int string
  | Error_monitoring

text \<open>
  The answers of the web3 calls made inside one pass through the \<open>try\<close> body of
  \<open>execute_safe_transaction\<close> (lines 37-50), each either raising or returning.
  \<open>estimateGas\<close> and \<open>encodeABI\<close> receive the first three entries of \<open>tx_data\<close>
  (the other seven are constants); \<open>sign_transaction\<close> receives gas, gas price,
  nonce and data of the transaction dict. The construction of the contract object
  (line 37) and the derivation of the sender address from the key (lines 38, 40) act on
  constants only and are not represented.
\<close>

record attempt_env =
  get_transaction_count :: "exn + int"
  estimateGas :: "address \<times> int \<times> string \<Rightarrow> exn + int"
  gas_price :: "exn + int"
  encodeABI :: "address \<times> int \<times> string \<Rightarrow> exn + string"
  sign_transaction :: "int \<times> int \<times> int \<times> string \<Rightarrow> exn + string"
  send_raw_transaction :: "string \<Rightarrow> exn + string"
  wait_for_transaction_receipt :: "string \<Rightarrow> exn + receipt option"

text \<open>
  The process state threaded through the code: how many passes through the \<open>try\<close>
  body have been started so far (the remote node answers the \<open>n\<close>-th pass with
  \<open>script n\<close>), the signed transactions handed to \<open>send_raw_transaction\<close> so far, in
  order, and the trace of the other observable effects.
\<close>

record world =
  attempts :: nat
  sent_raw :: "string list"
  trace :: "event list"

definition emit :: "event \<Rightarrow> world \<Rightarrow> world" where
  "emit ev w = w\<lparr>trace := trace w @ [ev]\<rparr>"

section \<open>execute_safe_transaction (lines 34-60)\<close>

text \<open>Sequencing of calls that may raise: the first exception ends the sequence.\<close>

definition and_then :: "exn + 'a \<Rightarrow> ('a \<Rightarrow> exn + 'b) \<Rightarrow> exn + 'b" where
  "and_then r f = (case r of Inl e \<Rightarrow> Inl e | Inr x \<Rightarrow> f x)"

text \<open>
  Lines 38-48 of the \<open>try\<close> body, in the order in which the source evaluates the
  calls: nonce, gas estimate, then (inside the transaction dict) gas price and
  \<open>encodeABI\<close>, and the signature. The result is \<open>signed_tx.rawTransaction\<close>.
\<close>

definition build_signed_tx :: "attempt_env \<Rightarrow> address \<Rightarrow> int \<Rightarrow> string \<Rightarrow> exn + string" where
  "build_signed_tx env to_address val data =
     and_then (get_transaction_count env) (\<lambda>nonce.
     and_then (estimateGas env (to_address, val, data)) (\<lambda>gas_estimate.
     and_then (gas_price env) (\<lambda>gasPrice.
     and_then (encodeABI env (to_address, val, data)) (\<lambda>tx_payload.
     sign_transaction env (gas_estimate, gasPrice, nonce, tx_payload)))))"

text \<open>Lines 49-50: the submission, and the wait for the receipt of the returned hash.\<close>

definition submit_and_wait :: "attempt_env \<Rightarrow> string \<Rightarrow> exn + receipt option" where
  "submit_and_wait env signed_tx =
     and_then (send_raw_transaction env signed_tx) (\<lambda>tx_hash.
     wait_for_transaction_receipt env tx_hash)"

text \<open>
  The \<open>try\<close> body up to the receipt (lines 37-50): its outcome, and the signed
  transactions it handed to \<open>send_raw_transaction\<close> (none when an earlier call raised,
  one otherwise, whether or not the node accepted it).
\<close>

definition attempt_body ::
  "attempt_env \<Rightarrow> address \<Rightarrow> int \<Rightarrow> string \<Rightarrow> (exn + receipt option) \<times> string list" where
  "attempt_body env to_address val data =
     (case build_signed_tx env to_address val data of
        Inl e \<Rightarrow> (Inl e, [])
      | Inr signed_tx \<Rightarrow> (submit_and_wait env signed_tx, [signed_tx]))"

text \<open>
  The loop \<open>for attempt in range(RETRY_ATTEMPTS)\<close>, over the list of the remaining
  values of \<open>attempt\<close>. A receipt with status 1 is logged and returned. A raised
  exception is handled by the \<open>except\<close> branch: an error line on the last attempt,
  a warning with \<open>str(e)[:100]\<close> otherwise, then \<open>time.sleep(5)\<close>. A missing receipt
  or a status other than 1 raises nothing, so the \<open>except\<close> branch does not run and
  the loop goes on to the next attempt. After the loop: \<open>return None\<close>.
\<close>

fun attempt_loop ::
  "(nat \<Rightarrow> attempt_env) \<Rightarrow> address \<Rightarrow> int \<Rightarrow> string \<Rightarrow> nat list \<Rightarrow> world
     \<Rightarrow> receipt option \<times> world" where
  "attempt_loop script to_address val data [] w = (None, w)"
| "attempt_loop script to_address val data (attempt # rest) w =
     (let (outcome, sent) = attempt_body (script (attempts w)) to_address val data;
          w1 = w\<lparr>attempts := Suc (attempts w), sent_raw := sent_raw w @ sent\<rparr>
      in
      case outcome of
        Inr (Some rc) \<Rightarrow>
          if status rc = 1
          then (Some rc, emit (Info_successful_transfer (transactionHash rc) to_address) w1)
          else attempt_loop script to_address val data rest w1
      | Inr None \<Rightarrow> attempt_loop script to_address val data rest w1
      | Inl (Exception msg) \<Rightarrow>
          attempt_loop script to_address val data rest
            (emit (Sleep 5)
              (emit (if attempt = RETRY_ATTEMPTS - 1
                     then Error_all_attempts_failed to_address
                     else Warning_attempt_failed (attempt + 1) (take 100 msg)) w1)))"

definition execute_safe_transaction ::
  "(nat \<Rightarrow> attempt_env) \<Rightarrow> address \<Rightarrow> int \<Rightarrow> string \<Rightarrow> world \<Rightarrow> receipt option \<times> world" where
  "execute_safe_transaction script to_address val data w =
     attempt_loop script to_address val data [0..<RETRY_ATTEMPTS] w"

text \<open>An attempt is unsuccessful when it raised, got no receipt, or got a status other than 1.\<close>

definition attempt_failed :: "exn + receipt option \<Rightarrow> bool" where
  "attempt_failed r =
     (case r of Inl e \<Rightarrow> True | Inr None \<Rightarrow> True | Inr (Some rc) \<Rightarrow> status rc \<noteq> 1)"

section \<open>Python string operations used by the scan loop\<close>

text \<open>
  A \<open>char\<close> stands for a code point below 256, which covers the text a node returns
  for addresses and payloads (\<open>0x\<close> and hexadecimal digits). On these code points
  \<open>str.lower\<close> changes the letters \<open>A\<close> to \<open>Z\<close> and the accented capitals 192 to 222
  (215, the multiplication sign, excepted), each by adding 32.
\<close>

definition lower_char :: "char \<Rightarrow> char" where
  "lower_char c =
     (let n = (of_char c :: nat) in
      if (65 \<le> n \<and> n \<le> 90) \<or> (192 \<le> n \<and> n \<le> 222 \<and> n \<noteq> 215)
      then char_of (n + 32) else c)"

definition lower :: "string \<Rightarrow> string" where
  "lower s = map lower_char s"

definition startswith :: "string \<Rightarrow> string \<Rightarrow> bool" where
  "startswith s p = (take (length p) s = p)"

text \<open>The slice \<open>s[74:138]\<close>; Python slices never raise, they return what is there.\<close>

definition slice_74_138 :: "string \<Rightarrow> string" where
  "slice_74_138 s = take 64 (drop 74 s)"

text \<open>
  \<open>int(s, 16)\<close>: surrounding whitespace is stripped, a sign and a \<open>0x\<close> prefix are
  optional, single underscores may separate digits (one may follow the prefix), and at
  least one digit is required. Anything else raises ValueError. The whitespace that
  \<open>int\<close> strips is, below 256: the code points 9 to 13, the space, 133 (next line) and
  160 (no-break space); the separators 28 to 31 are not stripped.
\<close>

definition hex_digit_value :: "char \<Rightarrow> int option" where
  "hex_digit_value c =
     (let n = (of_char c :: nat) in
      if 48 \<le> n \<and> n \<le> 57 then Some (int n - 48)
      else if 97 \<le> n \<and> n \<le> 102 then Some (int n - 87)
      else if 65 \<le> n \<and> n \<le> 70 then Some (int n - 55)
      else None)"

definition is_space :: "char \<Rightarrow> bool" where
  "is_space c =
     (let n = (of_char c :: nat) in (9 \<le> n \<and> n \<le> 13) \<or> n = 32 \<or> n = 133 \<or> n = 160)"

definition strip :: "string \<Rightarrow> string" where
  "strip s = rev (dropWhile is_space (rev (dropWhile is_space s)))"

fun scan_digits :: "bool \<Rightarrow> int \<Rightarrow> string \<Rightarrow> int option" where
  "scan_digits prev_underscore acc [] = (if prev_underscore then None else Some acc)"
| "scan_digits prev_underscore acc (c # cs) =
     (if c = CHR ''_'' then (if prev_underscore then None else scan_digits True acc cs)
      else case hex_digit_value c of
             None \<Rightarrow> None
           | Some d \<Rightarrow> scan_digits False (16 * acc + d) cs)"

fun split_sign :: "string \<Rightarrow> bool \<times> string" where
  "split_sign [] = (False, [])"
| "split_sign (c # cs) =
     (if c = CHR ''-'' then (True, cs) else if c = CHR ''+'' then (False, cs) else (False, c # cs))"

fun skip_prefix :: "string \<Rightarrow> string" where
  "skip_prefix (z # x # rest) =
     (if z = CHR ''0'' \<and> (x = CHR ''x'' \<or> x = CHR ''X'')
      then (case rest of [] \<Rightarrow> [] | u # rest' \<Rightarrow> if u = CHR ''_'' then rest' else rest)
      else z # x # rest)"
| "skip_prefix s = s"

definition int_16 :: "string \<Rightarrow> exn + int" where
  "int_16 s =
     (case split_sign (strip s) of (negative, unsigned) \<Rightarrow>
        (case skip_prefix unsigned of
           [] \<Rightarrow> Inl (Exception ''ValueError'')
         | c # cs \<Rightarrow>
             if c = CHR ''_'' then Inl (Exception ''ValueError'')
             else (case scan_digits False 0 (c # cs) of
                     None \<Rightarrow> Inl (Exception ''ValueError'')
                   | Some n \<Rightarrow> Inr (if negative then - n else n))))"

section \<open>Transactions and their classification (lines 75-82)\<close>

text \<open>
  A transaction as the loop reads it: \<open>tx['to']\<close> (\<open>None\<close> for a contract creation),
  \<open>tx['value']\<close> and \<open>tx['input']\<close>, the payload as hexadecimal text.
\<close>

record tx =
  tx_to :: "string option"
  tx_value :: int
  tx_input :: string

text \<open>
  What the body of the transaction loop decides before it acts: a native deposit with
  its amount, or a token deposit with the token address, its symbol and the amount.
\<close>

datatype deposit_event = Native int | Token address string int

text \<open>
  \<open>next(symbol for symbol, addr in TOKEN_ADDRESSES.items() if addr.lower() == token_address.lower())\<close>:
  the first matching symbol, StopIteration when there is none.
\<close>

definition token_symbol_of :: "address \<Rightarrow> exn + string" where
  "token_symbol_of token_address =
     (case List.find (\<lambda>(symbol, addr). lower addr = lower token_address) TOKEN_ADDRESSES of
        None \<Rightarrow> Inl (Exception ''StopIteration'')
      | Some (symbol, addr) \<Rightarrow> Inr symbol)"

text \<open>
  The decisions of lines 75, 76, 79, 81 and 82, with the nesting of the source: the
  token test is the \<open>elif\<close> of \<open>if tx['value'] > 0\<close>, so it is inside the branch
  \<open>tx['to'].lower() == YOUR_SAFE_ADDRESS.lower()\<close>. The membership test
  \<open>tx['to'] in TOKEN_ADDRESSES.values()\<close> compares the strings as they are. The amount
  is read from the slice \<open>[74:138]\<close> without a length check; the first argument slot
  (the recipient) is not read.
\<close>

definition classify :: "tx \<Rightarrow> exn + deposit_event option" where
  "classify t =
     (case tx_to t of
        None \<Rightarrow> Inr None
      | Some to_addr \<Rightarrow>
          if to_addr \<noteq> [] \<and> lower to_addr = lower YOUR_SAFE_ADDRESS then
            if tx_value t > 0 then Inr (Some (Native (tx_value t)))
            else if to_addr \<in> set (map snd TOKEN_ADDRESSES)
                    \<and> startswith (tx_input t) ''0xa9059cbb'' then
              and_then (token_symbol_of to_addr) (\<lambda>token_symbol.
              and_then (int_16 (slice_74_138 (tx_input t))) (\<lambda>amount.
              Inr (Some (Token to_addr token_symbol amount))))
            else Inr None
          else Inr None)"

section \<open>monitor_and_transfer (lines 62-90)\<close>

text \<open>
  The remote node during one polling cycle: the chain height, the blocks (each a list
  of transactions), and web3's encoder for \<open>transfer(address,uint256)\<close>.
\<close>

record node =
  get_block_number :: "exn + int"
  get_block :: "int \<Rightarrow> exn + tx list"
  encode_transfer :: "address \<Rightarrow> int \<Rightarrow> exn + string"

text \<open>
  The body of \<open>for tx in block.transactions\<close> for one transaction (lines 75-86). The
  empty bytes \<open>b''\<close> are the empty string. An exception leaves the body at once.
\<close>

definition process_tx ::
  "node \<Rightarrow> (nat \<Rightarrow> attempt_env) \<Rightarrow> tx \<Rightarrow> world \<Rightarrow> (exn + unit) \<times> world" where
  "process_tx nd script t w =
     (case classify t of
        Inl e \<Rightarrow> (Inl e, w)
      | Inr None \<Rightarrow> (Inr (), w)
      | Inr (Some (Native amount)) \<Rightarrow>
          (let w1 = emit (Info_matic_deposit amount YOUR_TARGET_WALLET) w;
               w2 = emit (Call_execute YOUR_TARGET_WALLET amount []) w1
           in (Inr (), snd (execute_safe_transaction script YOUR_TARGET_WALLET amount [] w2)))
      | Inr (Some (Token token_address token_symbol amount)) \<Rightarrow>
          (let w1 = emit (Info_erc20_deposit amount token_symbol YOUR_TARGET_WALLET) w
           in case encode_transfer nd YOUR_TARGET_WALLET amount of
                Inl e \<Rightarrow> (Inl e, w1)
              | Inr transfer_data \<Rightarrow>
                  (let w2 = emit (Call_execute token_address 0 transfer_data) w1
                   in (Inr (), snd (execute_safe_transaction script token_address 0 transfer_data w2)))))"

fun process_txs ::
  "node \<Rightarrow> (nat \<Rightarrow> attempt_env) \<Rightarrow> tx list \<Rightarrow> world \<Rightarrow> (exn + unit) \<times> world" where
  "process_txs nd script [] w = (Inr (), w)"
| "process_txs nd script (t # ts) w =
     (case process_tx nd script t w of
        (Inl e, w') \<Rightarrow> (Inl e, w')
      | (Inr u, w') \<Rightarrow> process_txs nd script ts w')"

text \<open>
  The loop \<open>for block_number in range(...)\<close> (lines 70-86) over the list of block
  numbers still to visit. \<open>last_logged_block\<close> is read at every iteration and never
  written inside this loop.
\<close>

fun scan_blocks ::
  "node \<Rightarrow> (nat \<Rightarrow> attempt_env) \<Rightarrow> int \<Rightarrow> int list \<Rightarrow> world \<Rightarrow> (exn + unit) \<times> world" where
  "scan_blocks nd script last_logged_block [] w = (Inr (), w)"
| "scan_blocks nd script last_logged_block (block_number # rest) w =
     (if block_number \<le> last_logged_block
      then scan_blocks nd script last_logged_block rest w
      else (let w1 = emit (Get_block block_number) w in
            case get_block nd block_number of
              Inl e \<Rightarrow> (Inl e, w1)
            | Inr transactions \<Rightarrow>
                (case process_txs nd script transactions w1 of
                   (Inl e, w2) \<Rightarrow> (Inl e, w2)
                 | (Inr u, w2) \<Rightarrow> scan_blocks nd script last_logged_block rest w2)))"

text \<open>
  One pass through the body of \<open>while True\<close> (lines 65-90). The state is
  \<open>last_logged_block\<close> and the world. Line 69 assigns \<open>last_logged_block\<close> before the
  \<open>for\<close> loop of line 70 starts. \<open>range(max(0, latest_block - BLOCK_RANGE), latest_block + 1)\<close>
  is the list \<open>[max 0 (latest_block - BLOCK_RANGE)..latest_block]\<close>. Any exception is
  logged by the \<open>except\<close> branch, which sleeps as well.
\<close>

definition monitor_cycle ::
  "node \<Rightarrow> (nat \<Rightarrow> attempt_env) \<Rightarrow> int \<times> world \<Rightarrow> int \<times> world" where
  "monitor_cycle nd script s =
     (case s of (last_logged_block, w) \<Rightarrow>
        (case get_block_number nd of
           Inl e \<Rightarrow> (last_logged_block, emit (Sleep MONITOR_INTERVAL) (emit Error_monitoring w))
         | Inr latest_block \<Rightarrow>
             (let (last_logged_block', w1) =
                    (if latest_block > last_logged_block
                     then (latest_block, emit (Info_scanning latest_block) w)
                     else (last_logged_block, w))
              in case scan_blocks nd script last_logged_block'
                        [max 0 (latest_block - BLOCK_RANGE)..latest_block] w1 of
                   (Inl e, w2) \<Rightarrow>
                     (last_logged_block', emit (Sleep MONITOR_INTERVAL) (emit Error_monitoring w2))
                 | (Inr u, w2) \<Rightarrow> (last_logged_block', emit (Sleep MONITOR_INTERVAL) w2))))"

text \<open>
  \<open>while True\<close> never ends, so the loop is run for the cycles whose node answers are
  given, one \<open>node\<close> per cycle; every statement below holds for every such prefix of
  the run. \<open>monitor_and_transfer\<close> starts with \<open>last_logged_block = 0\<close>.
\<close>

fun monitor_cycles ::
  "node list \<Rightarrow> (nat \<Rightarrow> attempt_env) \<Rightarrow> int \<times> world \<Rightarrow> int \<times> world" where
  "monitor_cycles [] script s = s"
| "monitor_cycles (nd # nds) script s = monitor_cycles nds script (monitor_cycle nd script s)"

definition monitor_and_transfer ::
  "node list \<Rightarrow> (nat \<Rightarrow> attempt_env) \<Rightarrow> world \<Rightarrow> int \<times> world" where
  "monitor_and_transfer nds script w = monitor_cycles nds script (0, w)"

text \<open>Reading a trace: the blocks fetched and the relay calls made, in order.\<close>

fun fetched_of :: "event \<Rightarrow> int list" where
  "fetched_of (Get_block n) = [n]"
| "fetched_of ev = []"

definition blocks_fetched :: "event list \<Rightarrow> int list" where
  "blocks_fetched evs = concat (map fetched_of evs)"

fun relay_call_of :: "event \<Rightarrow> (address \<times> int \<times> string) list" where
  "relay_call_of (Call_execute a v d) = [(a, v, d)]"
| "relay_call_of ev = []"

definition relay_calls :: "event list \<Rightarrow> (address \<times> int \<times> string) list" where
  "relay_calls evs = concat (map relay_call_of evs)"

section \<open>Scripted relay answers\<close>

text \<open>Receipts and scripted answers of the node to relay attempts, used at concrete inputs.\<close>

definition ok_receipt :: receipt where
  "ok_receipt = \<lparr>status = 1, transactionHash = ''0xabc''\<rparr>"

definition reverted_receipt :: receipt where
  "reverted_receipt = \<lparr>status = 0, transactionHash = ''0xdef''\<rparr>"

definition env_returning :: "receipt option \<Rightarrow> attempt_env" where
  "env_returning r =
     \<lparr>get_transaction_count = Inr 7,
      estimateGas = (\<lambda>_. Inr 21000),
      gas_price = Inr 30,
      encodeABI = (\<lambda>_. Inr ''0x6a761202''),
      sign_transaction = (\<lambda>_. Inr ''0xf86c''),
      send_raw_transaction = (\<lambda>_. Inr ''0xabc''),
      wait_for_transaction_receipt = (\<lambda>_. Inr r)\<rparr>"

definition env_rejecting :: attempt_env where
  "env_rejecting = (env_returning None)\<lparr>send_raw_transaction := (\<lambda>_. Inl (Exception ''nonce too low''))\<rparr>"

definition world0 :: world where
  "world0 = \<lparr>attempts = 0, sent_raw = [], trace = []\<rparr>"


definition script_ok :: "nat \<Rightarrow> attempt_env" where
  "script_ok i = env_returning (Some ok_receipt)"

section \<open>Concrete transactions and chains\<close>

text \<open>A native deposit of 5_000_000000000000000 wei to the watched Safe.\<close>

definition deposit_tx :: tx where
  "deposit_tx = \<lparr>tx_to = Some YOUR_SAFE_ADDRESS, tx_value = 5000000000000000000, tx_input = ''0x''\<rparr>"

text \<open>A native deposit whose recipient is the Safe address in lower case.\<close>

definition lowercase_deposit_tx :: tx where
  "lowercase_deposit_tx =
     \<lparr>tx_to = Some ''0x3ef50d6213f36eb88b994fa6c78277b328216d52'', tx_value = 42, tx_input = ''0x''\<rparr>"

text \<open>
  A call of \<open>transfer(address,uint256)\<close> on the USDT contract, with the Safe as
  recipient and the amount 250000 (\<open>0x3d090\<close>).
\<close>

definition token_transfer_tx :: tx where
  "token_transfer_tx =
     \<lparr>tx_to = Some ''0xc2132D05D31c914a87C6611C10748AEb04B58e8F'',
      tx_value = 0,
      tx_input = ''0xa9059cbb0000000000000000000000003ef50d6213f36eb88b994fa6c78277b328216d52000000000000000000000000000000000000000000000000000000000003d090''\<rparr>"

text \<open>The same call cut off after the selector and eight more digits.\<close>

definition truncated_token_tx :: tx where
  "truncated_token_tx =
     \<lparr>tx_to = Some ''0xc2132D05D31c914a87C6611C10748AEb04B58e8F'',
      tx_value = 0,
      tx_input = ''0xa9059cbb00000000''\<rparr>"

text \<open>A chain of height 1 whose block 1 holds the native deposit.\<close>

definition node_with_deposit :: node where
  "node_with_deposit =
     \<lparr>get_block_number = Inr 1,
      get_block = (\<lambda>n. if n = 1 then Inr [deposit_tx] else Inr []),
      encode_transfer = (\<lambda>a v. Inr ''0xa9059cbb'')\<rparr>"

text \<open>A chain of height \<open>h\<close> in which every block holds the native deposit.\<close>

definition node_at :: "int \<Rightarrow> node" where
  "node_at h =
     \<lparr>get_block_number = Inr h,
      get_block = (\<lambda>n. Inr [deposit_tx]),
      encode_transfer = (\<lambda>a v. Inr ''0xa9059cbb'')\<rparr>"

section \<open>Properties of the relay executor\<close>

lemma attempts_emit: "attempts (emit ev w) = attempts w"
  by (simp add: emit_def)

lemma sent_raw_emit: "sent_raw (emit ev w) = sent_raw w"
  by (simp add: emit_def)

lemma trace_emit: "trace (emit ev w) = trace w @ [ev]"
  by (simp add: emit_def)

text \<open>
  An unsuccessful pass hands the loop on to the next value of \<open>attempt\<close>, with one more
  pass counted and the submissions of the pass recorded.
\<close>

lemma attempt_loop_after_failure:
  assumes "attempt_failed (fst (attempt_body (script (attempts w)) to_address val data))"
  shows "\<exists>w'. attempt_loop script to_address val data (attempt # rest) w
               = attempt_loop script to_address val data rest w'
             \<and> attempts w' = Suc (attempts w)
             \<and> sent_raw w' = sent_raw w @ snd (attempt_body (script (attempts w)) to_address val data)"
proof -
  obtain outcome sent where ab:
    "attempt_body (script (attempts w)) to_address val data = (outcome, sent)"
    by (cases "attempt_body (script (attempts w)) to_address val data")
  let ?w1 = "w\<lparr>attempts := Suc (attempts w), sent_raw := sent_raw w @ sent\<rparr>"
  show ?thesis
  proof (cases outcome)
    case (Inl e)
    obtain msg where e: "e = Exception msg" by (cases e)
    let ?w' = "emit (Sleep 5)
                 (emit (if attempt = RETRY_ATTEMPTS - 1
                        then Error_all_attempts_failed to_address
                        else Warning_attempt_failed (attempt + 1) (take 100 msg)) ?w1)"
    have "attempt_loop script to_address val data (attempt # rest) w
            = attempt_loop script to_address val data rest ?w'"
      by (simp add: ab Inl e)
    moreover have "attempts ?w' = Suc (attempts w)"
      by (simp add: attempts_emit)
    moreover have "sent_raw ?w' = sent_raw w @ sent"
      by (simp add: sent_raw_emit)
    ultimately show ?thesis
      unfolding ab snd_conv by (intro exI [of _ ?w']) (intro conjI)
  next
    case (Inr r)
    have "attempt_loop script to_address val data (attempt # rest) w
            = attempt_loop script to_address val data rest ?w1"
    proof (cases r)
      case None
      with Inr show ?thesis by (simp add: ab)
    next
      case (Some rc)
      with Inr assms have "status rc \<noteq> 1" by (simp add: ab attempt_failed_def)
      with Inr Some show ?thesis by (simp add: ab)
    qed
    then show ?thesis
      unfolding ab snd_conv by (intro exI [of _ ?w1]) simp
  qed
qed

lemma attempt_loop_all_failed:
  assumes "\<And>i. attempt_failed (fst (attempt_body (script i) to_address val data))"
  shows "fst (attempt_loop script to_address val data idxs w) = None \<and>
   attempts (snd (attempt_loop script to_address val data idxs w)) = attempts w + length idxs"
proof (induction idxs arbitrary: w)
  case Nil
  show ?case by simp
next
  case (Cons attempt rest)
  obtain w' where step: "attempt_loop script to_address val data (attempt # rest) w
               = attempt_loop script to_address val data rest w'"
    and w': "attempts w' = Suc (attempts w)"
    using attempt_loop_after_failure [of script w to_address val data attempt rest] assms
    by blast
  from Cons.IH [of w'] show ?case
    unfolding step by (simp add: w')
qed


lemma rejecting_built: "build_signed_tx env_rejecting a v d = Inr ''0xf86c''"
  by (simp add: build_signed_tx_def and_then_def env_rejecting_def env_returning_def)

lemma rejecting_submission_failed: "attempt_failed (submit_and_wait env_rejecting s)"
  by (simp add: attempt_failed_def submit_and_wait_def and_then_def env_rejecting_def
      env_returning_def)

lemma rejecting_failed: "attempt_failed (fst (attempt_body env_rejecting a v d))"
  by (simp add: attempt_body_def rejecting_built rejecting_submission_failed)

lemma returning_built: "build_signed_tx (env_returning r) a v d = Inr ''0xf86c''"
  by (simp add: build_signed_tx_def and_then_def env_returning_def)

lemma returning_submitted: "submit_and_wait (env_returning r) s = Inr r"
  by (simp add: submit_and_wait_def and_then_def env_returning_def)

lemma returning_body: "attempt_body (env_returning r) a v d = (Inr r, [''0xf86c''])"
  by (simp add: attempt_body_def returning_built returning_submitted)



text \<open>
  C9. If every attempt fails, \<open>execute_safe_transaction\<close> returns \<open>None\<close> after exactly
  \<open>RETRY_ATTEMPTS\<close> = 5 attempts. Its result is a plain \<open>receipt option\<close>: every
  exception raised inside the \<open>try\<close> body is consumed by the \<open>except Exception\<close> branch,
  so none reaches the caller.
\<close>

theorem execute_all_fail_returns_none:
  assumes "\<And>i. attempt_failed (fst (attempt_body (script i) to_address val data))"
  shows "fst (execute_safe_transaction script to_address val data w) = None
       \<and> attempts (snd (execute_safe_transaction script to_address val data w)) = attempts w + RETRY_ATTEMPTS
       \<and> RETRY_ATTEMPTS = 5"
  using attempt_loop_all_failed [of script to_address val data "[0..<RETRY_ATTEMPTS]" w, OF assms]
  by (simp add: execute_safe_transaction_def RETRY_ATTEMPTS_def)

text \<open>A node that rejects every submission: \<open>None\<close> after five attempts.\<close>

theorem execute_all_fail_returns_none_witness:
  "fst (execute_safe_transaction (\<lambda>i. env_rejecting) YOUR_TARGET_WALLET 5 [] world0) = None
   \<and> attempts (snd (execute_safe_transaction (\<lambda>i. env_rejecting) YOUR_TARGET_WALLET 5 [] world0)) = 5"
  using execute_all_fail_returns_none [of "\<lambda>i. env_rejecting" YOUR_TARGET_WALLET 5 "[]" world0]
  by (simp add: rejecting_failed world0_def)

text \<open>
  C10. The claim asks for a sleep after every unsuccessful attempt that has a successor
  and for a logged terminal failure when the attempts are used up. The source sleeps and
  logs in the \<open>except\<close> branch only. When every attempt ends with a receipt of status 0
  nothing is raised: the five attempts, each with its submission, follow each other
  without any sleep, nothing is logged, and \<open>None\<close> is returned.
\<close>

theorem reverted_receipts_no_sleep_no_log:
  "execute_safe_transaction (\<lambda>i. env_returning (Some reverted_receipt)) YOUR_TARGET_WALLET 5 [] world0
     = (None,
        \<lparr>attempts = 5,
         sent_raw = [''0xf86c'', ''0xf86c'', ''0xf86c'', ''0xf86c'', ''0xf86c''],
         trace = []\<rparr>)"
  by (simp add: execute_safe_transaction_def RETRY_ATTEMPTS_def upt_rec returning_body
      reverted_receipt_def world0_def)

section \<open>Effects of the relay executor on the trace\<close>

lemma blocks_fetched_emit:
  "blocks_fetched (trace (emit ev w)) = blocks_fetched (trace w) @ fetched_of ev"
  by (simp add: emit_def blocks_fetched_def)

lemma relay_calls_emit:
  "relay_calls (trace (emit ev w)) = relay_calls (trace w) @ relay_call_of ev"
  by (simp add: emit_def relay_calls_def)

lemma attempt_loop_fetched:
  "blocks_fetched (trace (snd (attempt_loop script a v d idxs w))) = blocks_fetched (trace w)"
proof (induction idxs arbitrary: w)
  case Nil
  show ?case by simp
next
  case (Cons attempt rest)
  show ?case
    by (simp add: Let_def Cons.IH blocks_fetched_emit
        split: prod.split sum.split option.split exn.split)
qed

lemma attempt_loop_relay_calls:
  "relay_calls (trace (snd (attempt_loop script a v d idxs w))) = relay_calls (trace w)"
proof (induction idxs arbitrary: w)
  case Nil
  show ?case by simp
next
  case (Cons attempt rest)
  show ?case
    by (simp add: Let_def Cons.IH relay_calls_emit
        split: prod.split sum.split option.split exn.split)
qed

section \<open>Properties of the classification\<close>

lemma lower_safe: "lower YOUR_SAFE_ADDRESS = ''0x3ef50d6213f36eb88b994fa6c78277b328216d52''"
  by code_simp

lemma lower_tokens:
  "map (\<lambda>(s, a). lower a) TOKEN_ADDRESSES =
     [''0xc2132d05d31c914a87c6611c10748aeb04b58e8f'', ''0x2791bca1f2de4661ed88a30c99a7a9449aa84174'']"
  by code_simp

text \<open>
  No registered token address equals the Safe address, in any spelling of its letters,
  so the token branch of the classification, nested under the test for the Safe address,
  is never entered.
\<close>

lemma safe_not_a_token:
  assumes "lower a = lower YOUR_SAFE_ADDRESS"
  shows "a \<notin> set (map snd TOKEN_ADDRESSES)"
proof
  assume "a \<in> set (map snd TOKEN_ADDRESSES)"
  then have "lower a \<in> set (map (\<lambda>(s, a). lower a) TOKEN_ADDRESSES)"
    by (auto simp: TOKEN_ADDRESSES_def)
  then show False
    unfolding lower_tokens assms lower_safe by simp
qed

text \<open>What the classification computes, for every transaction.\<close>

lemma classify_eq:
  "classify t =
     (case tx_to t of
        None \<Rightarrow> Inr None
      | Some a \<Rightarrow> if lower a = lower YOUR_SAFE_ADDRESS \<and> tx_value t > 0
                  then Inr (Some (Native (tx_value t))) else Inr None)"
proof (cases "tx_to t")
  case None
  then show ?thesis by (simp add: classify_def)
next
  case (Some a)
  show ?thesis
  proof (cases "lower a = lower YOUR_SAFE_ADDRESS")
    case True
    then have "a \<noteq> []" unfolding lower_safe by (auto simp: lower_def)
    with True Some safe_not_a_token [OF True] show ?thesis
      by (simp add: classify_def)
  next
    case False
    with Some show ?thesis by (simp add: classify_def)
  qed
qed

text \<open>
  C5. Every transaction whose recipient is the watched address, letter case aside, and
  whose value is positive is classified as a native deposit of exactly that value; the
  loop body then calls \<open>execute_safe_transaction(YOUR_TARGET_WALLET, value, b'')\<close>
  once.
\<close>

theorem native_deposit_classified:
  assumes "tx_to t = Some a" and "lower a = lower YOUR_SAFE_ADDRESS" and "tx_value t > 0"
  shows "classify t = Inr (Some (Native (tx_value t)))
       \<and> relay_calls (trace (snd (process_tx nd script t w)))
           = relay_calls (trace w) @ [(YOUR_TARGET_WALLET, tx_value t, [])]"
proof -
  have c: "classify t = Inr (Some (Native (tx_value t)))"
    using assms by (simp add: classify_eq)
  then show ?thesis
    by (simp add: process_tx_def Let_def execute_safe_transaction_def attempt_loop_relay_calls
        relay_calls_emit)
qed

text \<open>A deposit of 42 wei sent to the lower-case spelling of the Safe address.\<close>

theorem native_deposit_classified_witness:
  "classify lowercase_deposit_tx = Inr (Some (Native 42))
   \<and> relay_calls (trace (snd (process_tx node_with_deposit script_ok lowercase_deposit_tx world0)))
       = [(YOUR_TARGET_WALLET, 42, [])]"
proof -
  have h1: "tx_to lowercase_deposit_tx = Some ''0x3ef50d6213f36eb88b994fa6c78277b328216d52''"
    by (simp add: lowercase_deposit_tx_def)
  have h2: "lower ''0x3ef50d6213f36eb88b994fa6c78277b328216d52'' = lower YOUR_SAFE_ADDRESS"
    by code_simp
  have h3: "tx_value lowercase_deposit_tx > 0"
    by (simp add: lowercase_deposit_tx_def)
  from native_deposit_classified [OF h1 h2 h3, of node_with_deposit script_ok world0]
  show ?thesis
    by (simp add: lowercase_deposit_tx_def world0_def relay_calls_def)
qed

text \<open>
  No registered token address, in any spelling of its letters, is a spelling of the Safe
  address.
\<close>

lemma token_not_the_safe:
  assumes "lower a \<in> set (map (\<lambda>(symbol, addr). lower addr) TOKEN_ADDRESSES)"
  shows "lower a \<noteq> lower YOUR_SAFE_ADDRESS"
  using assms unfolding lower_tokens lower_safe by auto

text \<open>The loop body raises on no transaction, so the transaction loop always goes on.\<close>

lemma process_tx_never_raises: "fst (process_tx nd script t w) = Inr ()"
  by (simp add: process_tx_def classify_eq Let_def split: option.split)

text \<open>
  C6. The claim belongs to the rule for transactions sent to a registered token contract
  (the registry compared without regard to letter case). For every such transaction
  whose payload starts with the \<open>transfer\<close> selector but is shorter than the 138
  characters of a well-formed call, the classification gives no event and raises
  nothing, the loop body leaves the world as it is, and the remaining transactions of
  the block are processed as if this one were absent. The part about errors holds for
  every transaction, whatever its recipient and payload: the classification never
  raises, the loop body never raises, and the transaction loop goes on with the
  remaining transactions.
\<close>

theorem short_payload_no_event_no_error:
  "(\<exists>ev. classify t = Inr ev)
   \<and> fst (process_tx nd script t w) = Inr ()
   \<and> process_txs nd script (t # ts) w = process_txs nd script ts (snd (process_tx nd script t w))
   \<and> (tx_to t = Some a
       \<and> lower a \<in> set (map (\<lambda>(symbol, addr). lower addr) TOKEN_ADDRESSES)
       \<and> startswith (tx_input t) ''0xa9059cbb''
       \<and> length (tx_input t) < 138
      \<longrightarrow> classify t = Inr None
          \<and> process_tx nd script t w = (Inr (), w)
          \<and> process_txs nd script (t # ts) w = process_txs nd script ts w)"
proof (intro conjI impI)
  show "\<exists>ev. classify t = Inr ev"
    by (simp add: classify_eq split: option.split)
  show noraise: "fst (process_tx nd script t w) = Inr ()"
    by (rule process_tx_never_raises)
  show "process_txs nd script (t # ts) w = process_txs nd script ts (snd (process_tx nd script t w))"
    using noraise by (cases "process_tx nd script t w") simp
next
  assume h: "tx_to t = Some a
       \<and> lower a \<in> set (map (\<lambda>(symbol, addr). lower addr) TOKEN_ADDRESSES)
       \<and> startswith (tx_input t) ''0xa9059cbb''
       \<and> length (tx_input t) < 138"
  then have "lower a \<noteq> lower YOUR_SAFE_ADDRESS" by (intro token_not_the_safe) simp
  with h show c: "classify t = Inr None" by (simp add: classify_eq)
  then show p: "process_tx nd script t w = (Inr (), w)" by (simp add: process_tx_def)
  then show "process_txs nd script (t # ts) w = process_txs nd script ts w" by simp
qed

text \<open>
  A call on the USDT contract, cut off after the selector and eight more digits and
  followed in its block by a deposit.
\<close>

theorem short_payload_no_event_no_error_witness:
  "classify truncated_token_tx = Inr None
   \<and> process_tx node_with_deposit script_ok truncated_token_tx world0 = (Inr (), world0)
   \<and> process_txs node_with_deposit script_ok [truncated_token_tx, deposit_tx] world0
       = process_txs node_with_deposit script_ok [deposit_tx] world0"
proof -
  have h: "tx_to truncated_token_tx = Some ''0xc2132D05D31c914a87C6611C10748AEb04B58e8F''
       \<and> lower ''0xc2132D05D31c914a87C6611C10748AEb04B58e8F''
           \<in> set (map (\<lambda>(symbol, addr). lower addr) TOKEN_ADDRESSES)
       \<and> startswith (tx_input truncated_token_tx) ''0xa9059cbb''
       \<and> length (tx_input truncated_token_tx) < 138"
    by (simp add: truncated_token_tx_def startswith_def TOKEN_ADDRESSES_def)
  from short_payload_no_event_no_error
         [of truncated_token_tx node_with_deposit script_ok world0 "[deposit_tx]"
             "''0xc2132D05D31c914a87C6611C10748AEb04B58e8F''"] h
  show ?thesis by blast
qed

text \<open>
  The decoding itself has no length check: on a payload of at most 74 characters the
  slice is empty and \<open>int('', 16)\<close> raises ValueError. With the configured
  addresses no transaction reaches that line.
\<close>

lemma short_slice_raises:
  "length p \<le> 74 \<Longrightarrow> int_16 (slice_74_138 p) = Inl (Exception ''ValueError'')"
  by (simp add: slice_74_138_def int_16_def strip_def)

text \<open>
  C2. The claim asks that a well-formed \<open>transfer(Safe, N)\<close> call on a registered
  token contract be classified as a token deposit of \<open>N\<close>. In the source the token
  test is nested under \<open>tx['to'].lower() == YOUR_SAFE_ADDRESS.lower()\<close>, which a
  transaction sent to a token contract never satisfies. For the call on USDT with the
  Safe as recipient and the amount 250000 (a payload of 138 characters whose second
  slot decodes to 250000), the classification gives no event and the loop body does
  nothing.
\<close>

theorem token_transfer_not_detected:
  "tx_to token_transfer_tx = Some ''0xc2132D05D31c914a87C6611C10748AEb04B58e8F''
   \<and> (''USDT'', ''0xc2132D05D31c914a87C6611C10748AEb04B58e8F'') \<in> set TOKEN_ADDRESSES
   \<and> startswith (tx_input token_transfer_tx) ''0xa9059cbb''
   \<and> length (tx_input token_transfer_tx) = 138
   \<and> take 40 (drop 34 (tx_input token_transfer_tx)) = drop 2 (lower YOUR_SAFE_ADDRESS)
   \<and> int_16 (slice_74_138 (tx_input token_transfer_tx)) = Inr 250000
   \<and> classify token_transfer_tx = Inr None
   \<and> process_tx node_with_deposit script_ok token_transfer_tx world0 = (Inr (), world0)"
proof (intro conjI)
  show "int_16 (slice_74_138 (tx_input token_transfer_tx)) = Inr 250000"
    by code_simp
  show c: "classify token_transfer_tx = Inr None"
    by code_simp
  show "process_tx node_with_deposit script_ok token_transfer_tx world0 = (Inr (), world0)"
    by (simp add: process_tx_def c)
  show "take 40 (drop 34 (tx_input token_transfer_tx)) = drop 2 (lower YOUR_SAFE_ADDRESS)"
    by (simp add: lower_safe token_transfer_tx_def)
qed (simp_all add: token_transfer_tx_def TOKEN_ADDRESSES_def startswith_def)

section \<open>Properties of the scan loop\<close>

lemma process_tx_fetched:
  "blocks_fetched (trace (snd (process_tx nd script t w))) = blocks_fetched (trace w)"
  by (simp add: process_tx_def Let_def execute_safe_transaction_def attempt_loop_fetched
      blocks_fetched_emit split: sum.split option.split deposit_event.split)

lemma process_txs_fetched:
  "blocks_fetched (trace (snd (process_txs nd script ts w))) = blocks_fetched (trace w)"
proof (induction ts arbitrary: w)
  case Nil
  show ?case by simp
next
  case (Cons t ts)
  obtain r w' where step: "process_tx nd script t w = (r, w')" by (cases "process_tx nd script t w")
  have "blocks_fetched (trace w') = blocks_fetched (trace w)"
    using process_tx_fetched [of nd script t w] step by simp
  then show ?case using step Cons.IH [of w'] by (cases r) simp_all
qed

text \<open>
  Whatever \<open>last_logged_block\<close> is, the \<open>for\<close> loop fetches only blocks of its range
  that lie above it, each at most once.
\<close>

lemma scan_blocks_fetched_distinct:
  "distinct ns \<Longrightarrow>
   \<exists>ns'. blocks_fetched (trace (snd (scan_blocks nd script c ns w))) = blocks_fetched (trace w) @ ns'
        \<and> (\<forall>n\<in>set ns'. c < n \<and> n \<in> set ns) \<and> distinct ns'"
proof (induction ns arbitrary: w)
  case Nil
  show ?case by simp
next
  case (Cons n ns)
  have d: "distinct ns" and fresh: "n \<notin> set ns" using Cons.prems by simp_all
  show ?case
  proof (cases "n \<le> c")
    case True
    with Cons.IH [OF d, of w] show ?thesis by auto
  next
    case False
    let ?w1 = "emit (Get_block n) w"
    have w1: "blocks_fetched (trace ?w1) = blocks_fetched (trace w) @ [n]"
      by (simp add: blocks_fetched_emit)
    show ?thesis
    proof (cases "get_block nd n")
      case (Inl e)
      with False w1 show ?thesis by (intro exI [of _ "[n]"]) (simp add: Let_def)
    next
      case (Inr txs)
      obtain r w2 where p: "process_txs nd script txs ?w1 = (r, w2)"
        by (cases "process_txs nd script txs ?w1")
      have w2: "blocks_fetched (trace w2) = blocks_fetched (trace w) @ [n]"
        using process_txs_fetched [of nd script txs ?w1] p w1 by simp
      show ?thesis
      proof (cases r)
        case (Inl e)
        with False Inr p w2 show ?thesis by (intro exI [of _ "[n]"]) (simp add: Let_def)
      next
        case (Inr u)
        from Cons.IH [OF d, of w2] obtain ns' where
          ns': "blocks_fetched (trace (snd (scan_blocks nd script c ns w2))) = blocks_fetched (trace w2) @ ns'"
          and above: "\<forall>m\<in>set ns'. c < m \<and> m \<in> set ns" and d': "distinct ns'" by blast
        have "n \<notin> set ns'" using above fresh by blast
        with False \<open>get_block nd n = Inr txs\<close> p Inr ns' above w2 d' show ?thesis
          by (intro exI [of _ "n # ns'"]) (simp add: Let_def)
      qed
    qed
  qed
qed

text \<open>When the whole range is at or below \<open>last_logged_block\<close>, the loop does nothing.\<close>

lemma scan_blocks_all_skipped:
  "\<forall>n\<in>set ns. n \<le> c \<Longrightarrow> scan_blocks nd script c ns w = (Inr (), w)"
  by (induction ns) simp_all

text \<open>
  One cycle, computed: since line 69 has run before the range is visited, the whole range
  is skipped and the cycle only reads the height, logs and sleeps.
\<close>

lemma monitor_cycle_eq:
  "monitor_cycle nd script (c, w) =
     (case get_block_number nd of
        Inl e \<Rightarrow> (c, emit (Sleep MONITOR_INTERVAL) (emit Error_monitoring w))
      | Inr latest_block \<Rightarrow>
          (max c latest_block,
           emit (Sleep MONITOR_INTERVAL)
             (if latest_block > c then emit (Info_scanning latest_block) w else w)))"
  by (auto simp: monitor_cycle_def scan_blocks_all_skipped split: sum.splits)

lemma monitor_cycle_cursor:
  "fst (monitor_cycle nd script (c, w)) =
     (case get_block_number nd of Inl e \<Rightarrow> c
      | Inr latest_block \<Rightarrow> if latest_block > c then latest_block else c)"
  by (simp add: monitor_cycle_def split: sum.split prod.split)

lemma monitor_cycle_fetched_distinct:
  "\<exists>ns'. blocks_fetched (trace (snd (monitor_cycle nd script (c, w)))) = blocks_fetched (trace w) @ ns'
        \<and> (\<forall>n\<in>set ns'. c < n \<and> n \<le> fst (monitor_cycle nd script (c, w))) \<and> distinct ns'"
proof (cases "get_block_number nd")
  case (Inl e)
  then show ?thesis
    by (intro exI [of _ "[]"]) (simp add: monitor_cycle_def blocks_fetched_emit)
next
  case (Inr latest)
  define c' where "c' = (if latest > c then latest else c)"
  define w1 where "w1 = (if latest > c then emit (Info_scanning latest) w else w)"
  have w1: "blocks_fetched (trace w1) = blocks_fetched (trace w)"
    by (simp add: w1_def blocks_fetched_emit)
  obtain r w2 where s: "scan_blocks nd script c' [max 0 (latest - BLOCK_RANGE)..latest] w1 = (r, w2)"
    by (cases "scan_blocks nd script c' [max 0 (latest - BLOCK_RANGE)..latest] w1")
  from scan_blocks_fetched_distinct [of "[max 0 (latest - BLOCK_RANGE)..latest]" nd script c' w1] s w1
  obtain ns' where ns': "blocks_fetched (trace w2) = blocks_fetched (trace w) @ ns'"
    and above: "\<forall>n\<in>set ns'. c' < n \<and> n \<in> set [max 0 (latest - BLOCK_RANGE)..latest]"
    and d: "distinct ns'"
    by auto
  have cyc: "monitor_cycle nd script (c, w) =
      (c', case r of Inl e \<Rightarrow> emit (Sleep MONITOR_INTERVAL) (emit Error_monitoring w2)
                   | Inr u \<Rightarrow> emit (Sleep MONITOR_INTERVAL) w2)"
    using Inr s by (cases r; cases "latest > c") (simp_all add: monitor_cycle_def c'_def w1_def)
  have "blocks_fetched (trace (snd (monitor_cycle nd script (c, w)))) = blocks_fetched (trace w) @ ns'"
    unfolding cyc using ns' by (cases r) (simp_all add: blocks_fetched_emit)
  moreover have "\<forall>n\<in>set ns'. c < n \<and> n \<le> fst (monitor_cycle nd script (c, w))"
    unfolding cyc using above by (auto simp: c'_def split: if_splits)
  ultimately show ?thesis using d by blast
qed

lemma monitor_cycles_cursor_fetched:
  "c \<le> fst (monitor_cycles nds script (c, w)) \<and>
   (\<exists>ns'. blocks_fetched (trace (snd (monitor_cycles nds script (c, w)))) = blocks_fetched (trace w) @ ns'
         \<and> (\<forall>n\<in>set ns'. c < n \<and> n \<le> fst (monitor_cycles nds script (c, w))) \<and> distinct ns')"
proof (induction nds arbitrary: c w)
  case Nil
  show ?case by simp
next
  case (Cons nd nds)
  obtain c1 w1 where step: "monitor_cycle nd script (c, w) = (c1, w1)"
    by (cases "monitor_cycle nd script (c, w)")
  have mono1: "c \<le> c1" using monitor_cycle_cursor [of nd script c w] step
    by (simp split: sum.splits if_splits)
  from monitor_cycle_fetched_distinct [of nd script c w] step obtain ns1 where
    f1: "blocks_fetched (trace w1) = blocks_fetched (trace w) @ ns1"
    and b1: "\<forall>n\<in>set ns1. c < n \<and> n \<le> c1" and d1: "distinct ns1" by auto
  from Cons.IH [of c1 w1] obtain ns2 where
    mono2: "c1 \<le> fst (monitor_cycles nds script (c1, w1))"
    and f2: "blocks_fetched (trace (snd (monitor_cycles nds script (c1, w1)))) = blocks_fetched (trace w1) @ ns2"
    and b2: "\<forall>n\<in>set ns2. c1 < n \<and> n \<le> fst (monitor_cycles nds script (c1, w1))"
    and d2: "distinct ns2" by blast
  have "distinct (ns1 @ ns2)" using d1 d2 b1 b2 by fastforce
  moreover have "\<forall>n\<in>set (ns1 @ ns2). c < n \<and> n \<le> fst (monitor_cycles nds script (c1, w1))"
    using b1 b2 mono1 mono2 by fastforce
  ultimately show ?case
    using mono1 mono2 f1 f2 by (simp add: step)
qed

lemma monitor_cycle_untouched:
  "blocks_fetched (trace (snd (monitor_cycle nd script (c, w)))) = blocks_fetched (trace w)
   \<and> relay_calls (trace (snd (monitor_cycle nd script (c, w)))) = relay_calls (trace w)
   \<and> attempts (snd (monitor_cycle nd script (c, w))) = attempts w"
  by (simp add: monitor_cycle_eq blocks_fetched_emit relay_calls_emit attempts_emit
      split: sum.split)

lemma monitor_cycles_untouched:
  "blocks_fetched (trace (snd (monitor_cycles nds script (c, w)))) = blocks_fetched (trace w)
   \<and> relay_calls (trace (snd (monitor_cycles nds script (c, w)))) = relay_calls (trace w)
   \<and> attempts (snd (monitor_cycles nds script (c, w))) = attempts w"
proof (induction nds arbitrary: c w)
  case Nil
  show ?case by simp
next
  case (Cons nd nds)
  obtain c1 w1 where step: "monitor_cycle nd script (c, w) = (c1, w1)"
    by (cases "monitor_cycle nd script (c, w)")
  from monitor_cycle_untouched [of nd script c w] Cons.IH [of c1 w1] show ?case
    by (simp add: step)
qed

text \<open>The loop body on the deposit, and the \<open>for\<close> loop over \<open>[0, 1]\<close> with the cursor at 0.\<close>

lemma process_deposit_tx:
  "process_tx nd script_ok deposit_tx w
     = (Inr (),
        \<lparr>attempts = Suc (attempts w),
         sent_raw = sent_raw w @ [''0xf86c''],
         trace = trace w @
                 [Info_matic_deposit 5000000000000000000 YOUR_TARGET_WALLET,
                  Call_execute YOUR_TARGET_WALLET 5000000000000000000 [],
                  Info_successful_transfer ''0xabc'' YOUR_TARGET_WALLET]\<rparr>)"
  by (simp add: emit_def process_tx_def classify_eq deposit_tx_def
      execute_safe_transaction_def RETRY_ATTEMPTS_def upt_rec script_ok_def returning_body
      ok_receipt_def Let_def)

lemma scan_with_old_cursor:
  "scan_blocks node_with_deposit script_ok 0 [0, 1] world0
     = (Inr (),
        \<lparr>attempts = 1,
         sent_raw = [''0xf86c''],
         trace = [Get_block 1,
                  Info_matic_deposit 5000000000000000000 YOUR_TARGET_WALLET,
                  Call_execute YOUR_TARGET_WALLET 5000000000000000000 [],
                  Info_successful_transfer ''0xabc'' YOUR_TARGET_WALLET]\<rparr>)"
  by (simp add: node_with_deposit_def world0_def emit_def process_deposit_tx)

text \<open>
  C4. In every cycle that reads a height \<open>latest_block\<close>, the value of
  \<open>last_logged_block\<close> after lines 67-69 is at least every block number of the range
  \<open>[max(0, latest_block - BLOCK_RANGE), latest_block]\<close>; with that value the \<open>for\<close>
  loop returns normally and leaves every world \<open>w1\<close> as it found it, whatever the node
  would answer to \<open>get_block\<close>; the cycle only logs and sleeps. Over any number of
  cycles no block is fetched, no relay call is made and no relay attempt is started: no
  transaction is ever available to be classified.
\<close>

theorem scan_loop_skips_every_block:
  "(get_block_number nd = Inr latest_block \<longrightarrow>
      (\<forall>n\<in>set [max 0 (latest_block - BLOCK_RANGE)..latest_block].
          n \<le> (if latest_block > c then latest_block else c))
      \<and> scan_blocks nd script (if latest_block > c then latest_block else c)
            [max 0 (latest_block - BLOCK_RANGE)..latest_block] w1 = (Inr (), w1)
      \<and> monitor_cycle nd script (c, w) =
            (if latest_block > c then latest_block else c,
             emit (Sleep MONITOR_INTERVAL)
               (if latest_block > c then emit (Info_scanning latest_block) w else w)))
   \<and> blocks_fetched (trace (snd (monitor_cycles nds script (c, w)))) = blocks_fetched (trace w)
   \<and> relay_calls (trace (snd (monitor_cycles nds script (c, w)))) = relay_calls (trace w)
   \<and> attempts (snd (monitor_cycles nds script (c, w))) = attempts w"
proof -
  have skipped: "\<forall>n\<in>set [max 0 (latest_block - BLOCK_RANGE)..latest_block].
          n \<le> (if latest_block > c then latest_block else c)"
    by simp
  have "get_block_number nd = Inr latest_block \<Longrightarrow>
        monitor_cycle nd script (c, w) =
            (if latest_block > c then latest_block else c,
             emit (Sleep MONITOR_INTERVAL)
               (if latest_block > c then emit (Info_scanning latest_block) w else w))"
    by (simp add: monitor_cycle_eq)
  with skipped scan_blocks_all_skipped [OF skipped] monitor_cycles_untouched [of nds script c w]
  show ?thesis by blast
qed

text \<open>A cycle at height 7 with the cursor at 5, and a run of two cycles.\<close>

theorem scan_loop_skips_every_block_witness:
  "monitor_cycle (node_at 7) script_ok (5, world0)
     = (7, \<lparr>attempts = 0, sent_raw = [], trace = [Info_scanning 7, Sleep 60]\<rparr>)
   \<and> scan_blocks (node_at 7) script_ok 7 [max 0 (7 - BLOCK_RANGE)..7] world0 = (Inr (), world0)
   \<and> relay_calls (trace (snd (monitor_cycles [node_at 7, node_at 9] script_ok (5, world0)))) = []
   \<and> blocks_fetched (trace (snd (monitor_cycles [node_at 7, node_at 9] script_ok (5, world0)))) = []"
  using scan_loop_skips_every_block [of "node_at 7" 7 5 script_ok world0 world0 "[node_at 7, node_at 9]"]
  by (simp add: node_at_def world0_def emit_def MONITOR_INTERVAL_def relay_calls_def blocks_fetched_def)

text \<open>
  C7. From any state of the loop and over any number of further cycles,
  \<open>last_logged_block\<close> does not decrease, every block fetched from then on has a number
  above the value \<open>last_logged_block\<close> had in that state, and no block is fetched twice.
  The scan windows of the cycles may overlap freely: the heights read by the cycles are
  arbitrary. The last part is the reason, at the level of the \<open>for\<close> loop: whatever
  the cursor \<open>c\<close> is, the loop over a range without repetitions fetches only blocks of
  that range above \<open>c\<close>, each once.
\<close>

theorem cursor_monotone_no_rescan:
  "c \<le> fst (monitor_cycles nds script (c, w)) \<and>
   (\<exists>ns'. blocks_fetched (trace (snd (monitor_cycles nds script (c, w)))) = blocks_fetched (trace w) @ ns'
         \<and> (\<forall>n\<in>set ns'. c < n) \<and> distinct ns') \<and>
   (distinct ns \<longrightarrow>
      (\<exists>ns'. blocks_fetched (trace (snd (scan_blocks nd script c ns w))) = blocks_fetched (trace w) @ ns'
            \<and> (\<forall>n\<in>set ns'. c < n \<and> n \<in> set ns) \<and> distinct ns'))"
  using monitor_cycles_cursor_fetched [of c nds script w]
    scan_blocks_fetched_distinct [of ns nd script c w]
  by blast

text \<open>
  Heights 7, 3 and 9 read in turn, starting with the cursor at 0; and the \<open>for\<close> loop
  over \<open>[0, 1]\<close> with the cursor at 0, which fetches block 1 only.
\<close>

theorem cursor_monotone_no_rescan_witness:
  "(0::int) \<le> fst (monitor_cycles [node_at 7, node_at 3, node_at 9] script_ok (0, world0))
   \<and> fst (monitor_cycles [node_at 7, node_at 3, node_at 9] script_ok (0, world0)) = 9
   \<and> fst (monitor_cycles [node_at 7, node_at 3] script_ok (0, world0)) = 7
   \<and> distinct [0, 1 :: int]
   \<and> blocks_fetched (trace (snd (scan_blocks node_with_deposit script_ok 0 [0, 1] world0))) = [1]"
  using cursor_monotone_no_rescan
          [of 0 "[node_at 7, node_at 3, node_at 9]" script_ok world0 "[0, 1]" node_with_deposit]
  by (simp add: monitor_cycle_eq node_at_def scan_with_old_cursor blocks_fetched_def
      del: scan_blocks.simps)

text \<open>
  C1. The claim asks for one relay call forwarding 5_000_000000000000000 wei when a
  scanned block holds one deposit of that amount to the Safe. The loop body, run on
  that transaction, would make exactly this call. The loop started at height 1 with the
  deposit in block 1 never runs the body: after two cycles the trace holds one log line
  and two sleeps, and no relay call.
\<close>

theorem deposit_block_never_relayed:
  "get_block_number node_with_deposit = Inr 1
   \<and> get_block node_with_deposit 1 = Inr [deposit_tx]
   \<and> relay_calls (trace (snd (process_tx node_with_deposit script_ok deposit_tx world0)))
       = [(YOUR_TARGET_WALLET, 5000000000000000000, [])]
   \<and> monitor_and_transfer [node_with_deposit, node_with_deposit] script_ok world0
       = (1, \<lparr>attempts = 0, sent_raw = [], trace = [Info_scanning 1, Sleep 60, Sleep 60]\<rparr>)
   \<and> relay_calls (trace (snd (monitor_and_transfer [node_with_deposit, node_with_deposit] script_ok world0))) = []"
  by (simp add: monitor_and_transfer_def monitor_cycle_eq node_with_deposit_def world0_def emit_def
      MONITOR_INTERVAL_def relay_calls_def process_tx_def classify_eq deposit_tx_def
      execute_safe_transaction_def attempt_loop_relay_calls [unfolded relay_calls_def])

text \<open>
  C3. The claim asks that the cursor move to the height \<open>H\<close> only once the range up to
  \<open>H\<close> has been iterated. In the source the assignment of line 69 comes before the
  \<open>for\<close> loop. In the cycle at height 1 starting with the cursor at 0, the range is
  \<open>[0, 1]\<close>; the loop runs with the cursor already at 1 and visits nothing, while with
  the cursor still at 0 it would have fetched block 1 and relayed its deposit.
\<close>

theorem cursor_moved_before_range_iterated:
  "monitor_cycle node_with_deposit script_ok (0, world0)
     = (1, \<lparr>attempts = 0, sent_raw = [], trace = [Info_scanning 1, Sleep 60]\<rparr>)
   \<and> [max 0 (1 - BLOCK_RANGE)..1] = [0, 1]
   \<and> scan_blocks node_with_deposit script_ok 1 [0, 1] (emit (Info_scanning 1) world0)
       = (Inr (), emit (Info_scanning 1) world0)
   \<and> scan_blocks node_with_deposit script_ok 0 [0, 1] world0
     = (Inr (),
        \<lparr>attempts = 1,
         sent_raw = [''0xf86c''],
         trace = [Get_block 1,
                  Info_matic_deposit 5000000000000000000 YOUR_TARGET_WALLET,
                  Call_execute YOUR_TARGET_WALLET 5000000000000000000 [],
                  Info_successful_transfer ''0xabc'' YOUR_TARGET_WALLET]\<rparr>)"
proof (intro conjI)
  show "monitor_cycle node_with_deposit script_ok (0, world0)
          = (1, \<lparr>attempts = 0, sent_raw = [], trace = [Info_scanning 1, Sleep 60]\<rparr>)"
    by (simp add: monitor_cycle_eq node_with_deposit_def world0_def emit_def MONITOR_INTERVAL_def)
  show "[max 0 (1 - BLOCK_RANGE)..1] = [0, 1]"
    by (simp add: BLOCK_RANGE_def upto_rec1)
  show "scan_blocks node_with_deposit script_ok 1 [0, 1] (emit (Info_scanning 1) world0)
          = (Inr (), emit (Info_scanning 1) world0)"
    by simp
qed (rule scan_with_old_cursor)

end
